theory Spec2Isabelle
  imports Complex_Main
begin

section \<open>The document model\<close>

text \<open>
  The scripts of the site only ever talk to the browser's document: they look elements up
  by class, id or attribute, read and write class lists, attributes and inline styles, and
  walk from an element to its parent. An element is a reference into a store; the store
  holds what the scripts can observe. The elements attached to the page are listed in
  document order, which is the order \<^verbatim>\<open>querySelectorAll\<close> reports them in.
\<close>

type_synonym ref = nat

record element =
  classList :: "string set"
  attributes :: "string \<rightharpoonup> string"
  style :: "string \<rightharpoonup> string"
  parentElement :: "ref option"

record document =
  heap :: "ref \<Rightarrow> element"
  nodes :: "ref list"

text \<open>What a handler can raise: dereferencing \<^verbatim>\<open>null\<close>.\<close>

datatype error = TypeError

text \<open>
  A handler that throws leaves the document as it was at the throw, so the failing branch
  carries that document along.
\<close>

type_synonym 'a outcome = "(error \<times> 'a) + 'a"

definition after :: "'a outcome \<Rightarrow> 'a" where
  "after r = (case r of Inl (e, d) \<Rightarrow> d | Inr d \<Rightarrow> d)"

definition update_element :: "ref \<Rightarrow> (element \<Rightarrow> element) \<Rightarrow> document \<Rightarrow> document" where
  "update_element r f d = d\<lparr>heap := (heap d)(r := f (heap d r))\<rparr>"

definition classList_contains :: "document \<Rightarrow> ref \<Rightarrow> string \<Rightarrow> bool" where
  "classList_contains d r c = (c \<in> classList (heap d r))"

definition classList_add :: "ref \<Rightarrow> string \<Rightarrow> document \<Rightarrow> document" where
  "classList_add r c = update_element r (\<lambda>e. e\<lparr>classList := insert c (classList e)\<rparr>)"

definition classList_remove :: "ref \<Rightarrow> string \<Rightarrow> document \<Rightarrow> document" where
  "classList_remove r c = update_element r (\<lambda>e. e\<lparr>classList := classList e - {c}\<rparr>)"

definition getAttribute :: "document \<Rightarrow> ref \<Rightarrow> string \<Rightarrow> string option" where
  "getAttribute d r k = attributes (heap d r) k"

definition setAttribute :: "ref \<Rightarrow> string \<Rightarrow> string \<Rightarrow> document \<Rightarrow> document" where
  "setAttribute r k v = update_element r (\<lambda>e. e\<lparr>attributes := (attributes e)(k \<mapsto> v)\<rparr>)"

definition getStyle :: "document \<Rightarrow> ref \<Rightarrow> string \<Rightarrow> string option" where
  "getStyle d r k = style (heap d r) k"

definition setStyle :: "ref \<Rightarrow> string \<Rightarrow> string \<Rightarrow> document \<Rightarrow> document" where
  "setStyle r k v = update_element r (\<lambda>e. e\<lparr>style := (style e)(k \<mapsto> v)\<rparr>)"

text \<open>\<^verbatim>\<open>document.querySelectorAll('.c')\<close>: the attached elements of class \<open>c\<close>, in document order.\<close>

definition querySelectorAll :: "document \<Rightarrow> string \<Rightarrow> ref list" where
  "querySelectorAll d c = filter (\<lambda>r. classList_contains d r c) (nodes d)"

text \<open>\<^verbatim>\<open>document.getElementById(s)\<close>: the first attached element whose id attribute is \<open>s\<close>.\<close>

definition getElementById :: "document \<Rightarrow> string \<Rightarrow> ref option" where
  "getElementById d s = find (\<lambda>r. getAttribute d r ''id'' = Some s) (nodes d)"

text \<open>
  Whether \<open>a\<close> is a proper ancestor of \<open>r\<close>: follow the parent links from \<open>r\<close>. A tree of
  attached elements is no deeper than it has elements, which bounds the walk.
\<close>

fun has_ancestor :: "(ref \<Rightarrow> element) \<Rightarrow> nat \<Rightarrow> ref \<Rightarrow> ref \<Rightarrow> bool" where
  "has_ancestor h 0 a r = False"
| "has_ancestor h (Suc k) a r =
     (case parentElement (h r) of
        None \<Rightarrow> False
      | Some p \<Rightarrow> p = a \<or> has_ancestor h k a p)"

definition inside :: "document \<Rightarrow> ref \<Rightarrow> ref \<Rightarrow> bool" where
  "inside d a r = has_ancestor (heap d) (length (nodes d)) a r"

text \<open>\<^verbatim>\<open>a.querySelector('.c')\<close>: the first descendant of \<open>a\<close> of class \<open>c\<close>, in document order.\<close>

definition querySelector_in :: "document \<Rightarrow> ref \<Rightarrow> string \<Rightarrow> ref option" where
  "querySelector_in d a c = find (\<lambda>r. inside d a r \<and> classList_contains d r c) (nodes d)"

section \<open>The accordion (initAccordion)\<close>

text \<open>
  What an init function leaves behind: the lines it wrote to the console and the listeners
  it attached, each a target element and an event type.
\<close>

record wiring =
  console :: "string list"
  listeners :: "(ref \<times> string) list"

definition accordion_headers :: "document \<Rightarrow> ref list" where
  "accordion_headers d = querySelectorAll d ''accordion-header''"

definition accordion_items :: "document \<Rightarrow> ref list" where
  "accordion_items d = querySelectorAll d ''accordion-item''"

text \<open>
  \<^verbatim>\<open>initAccordion\<close> gives a click and a keydown listener to every \<^verbatim>\<open>.accordion-header\<close>
  of the document. There is no check of the list: an empty one wires nothing and reports
  nothing.
\<close>

definition initAccordion :: "document \<Rightarrow> wiring outcome" where
  "initAccordion d =
     Inr \<lparr>console = [],
          listeners = concat (map (\<lambda>header. [(header, ''click''), (header, ''keydown'')])
                                  (accordion_headers d))\<rparr>"

text \<open>
  The loop of the click listener over every \<^verbatim>\<open>.accordion-item\<close> of the document: drop
  \<^verbatim>\<open>active\<close>, then set \<^verbatim>\<open>aria-expanded\<close> on the item's first header. An item without a
  header makes \<^verbatim>\<open>item.querySelector(...)\<close> null, and the call on it throws.
\<close>

fun close_items :: "ref list \<Rightarrow> document \<Rightarrow> document outcome" where
  "close_items [] d = Inr d"
| "close_items (item # items) d =
     (let d1 = classList_remove item ''active'' d in
      case querySelector_in d1 item ''accordion-header'' of
        None \<Rightarrow> Inl (TypeError, d1)
      | Some first_header \<Rightarrow>
          close_items items (setAttribute first_header ''aria-expanded'' ''false'' d1))"

text \<open>The click listener of one header.\<close>

definition accordion_click :: "ref \<Rightarrow> document \<Rightarrow> document outcome" where
  "accordion_click header d =
     (case parentElement (heap d header) of
        None \<Rightarrow> Inl (TypeError, d)
      | Some accordionItem \<Rightarrow>
          (let isActive = classList_contains d accordionItem ''active'' in
           case close_items (accordion_items d) d of
             Inl e \<Rightarrow> Inl e
           | Inr d1 \<Rightarrow>
               if \<not> isActive
               then Inr (setAttribute header ''aria-expanded'' ''true''
                          (classList_add accordionItem ''active'' d1))
               else Inr d1))"

text \<open>
  Each click is an event of its own: a listener that threw does not stop the next event,
  which sees the document the last one left.
\<close>

fun accordion_clicks :: "ref list \<Rightarrow> document \<Rightarrow> document" where
  "accordion_clicks [] d = d"
| "accordion_clicks (h # hs) d = accordion_clicks hs (after (accordion_click h d))"

text \<open>
  The markup the accordion is written for (\<^verbatim>\<open>.accordion-item\<close> holding its
  \<^verbatim>\<open>.accordion-header\<close>): the first header found in an item is a child of that item, and
  every header is the first header of the item it sits in.
\<close>

definition item_ok :: "document \<Rightarrow> ref \<Rightarrow> bool" where
  "item_ok d i =
     (case querySelector_in d i ''accordion-header'' of
        None \<Rightarrow> False
      | Some h \<Rightarrow> parentElement (heap d h) = Some i)"

definition header_ok :: "document \<Rightarrow> ref \<Rightarrow> bool" where
  "header_ok d h =
     (case parentElement (heap d h) of
        None \<Rightarrow> False
      | Some p \<Rightarrow> p \<in> set (accordion_items d)
                 \<and> querySelector_in d p ''accordion-header'' = Some h)"

definition accordion_wf :: "document \<Rightarrow> bool" where
  "accordion_wf d =
     ((\<forall>i \<in> set (accordion_items d). item_ok d i)
      \<and> (\<forall>h \<in> set (accordion_headers d). header_ok d h))"

text \<open>An item is open when it carries \<^verbatim>\<open>active\<close>, or its header says \<^verbatim>\<open>aria-expanded="true"\<close>.\<close>

definition item_active :: "document \<Rightarrow> ref \<Rightarrow> bool" where
  "item_active d i = classList_contains d i ''active''"

definition item_expanded :: "document \<Rightarrow> ref \<Rightarrow> bool" where
  "item_expanded d i =
     (case querySelector_in d i ''accordion-header'' of
        None \<Rightarrow> False
      | Some h \<Rightarrow> getAttribute d h ''aria-expanded'' = Some ''true'')"

definition isOpen :: "document \<Rightarrow> ref \<Rightarrow> bool" where
  "isOpen d i = (item_active d i \<or> item_expanded d i)"

text \<open>The items of one accordion container \<open>g\<close>: the items of the document inside \<open>g\<close>.\<close>

definition group_items :: "document \<Rightarrow> ref \<Rightarrow> ref list" where
  "group_items d g = filter (\<lambda>i. inside d g i) (accordion_items d)"

definition at_most_one_open :: "document \<Rightarrow> ref list \<Rightarrow> bool" where
  "at_most_one_open d items =
     (\<forall>i \<in> set items. \<forall>j \<in> set items. isOpen d i \<and> isOpen d j \<longrightarrow> i = j)"

text \<open>
  The accordion's listener only ever touches the class \<^verbatim>\<open>active\<close> and attributes: the tree,
  the order of the elements and every other class stay as they are.
\<close>

definition same_frame :: "document \<Rightarrow> document \<Rightarrow> bool" where
  "same_frame d d' =
     (nodes d' = nodes d
      \<and> (\<forall>r. parentElement (heap d' r) = parentElement (heap d r))
      \<and> (\<forall>r c. c \<noteq> ''active'' \<longrightarrow> (c \<in> classList (heap d' r)) = (c \<in> classList (heap d r))))"

text \<open>The document the closing loop over \<open>its\<close> leaves, element by element.\<close>

definition closes :: "document \<Rightarrow> ref list \<Rightarrow> document \<Rightarrow> bool" where
  "closes d its d' =
     (nodes d' = nodes d
      \<and> (\<forall>r. parentElement (heap d' r) = parentElement (heap d r))
      \<and> (\<forall>r. style (heap d' r) = style (heap d r))
      \<and> (\<forall>r. classList (heap d' r) =
              (if r \<in> set its then classList (heap d r) - {''active''} else classList (heap d r)))
      \<and> (\<forall>r. attributes (heap d' r) =
              (if \<exists>i \<in> set its. querySelector_in d i ''accordion-header'' = Some r
               then (attributes (heap d r))(''aria-expanded'' \<mapsto> ''false'')
               else attributes (heap d r))))"

text \<open>What one click on the header \<open>h\<close> of the item \<open>p\<close> leaves.\<close>

definition clicked :: "document \<Rightarrow> ref \<Rightarrow> ref \<Rightarrow> document \<Rightarrow> bool" where
  "clicked d h p d' =
     (parentElement (heap d h) = Some p
      \<and> p \<in> set (accordion_items d)
      \<and> accordion_click h d = Inr d'
      \<and> same_frame d d'
      \<and> (\<forall>i \<in> set (accordion_items d).
            item_active d' i = (i = p \<and> \<not> item_active d p)
            \<and> (\<exists>hi. querySelector_in d' i ''accordion-header'' = Some hi
                  \<and> getAttribute d' hi ''aria-expanded''
                      = Some (if i = p \<and> \<not> item_active d p then ''true'' else ''false''))))"

text \<open>Example documents, written as the list of their elements in document order.\<close>

definition mk_element :: "string list \<Rightarrow> (string \<times> string) list \<Rightarrow> ref option \<Rightarrow> element" where
  "mk_element cs as p =
     \<lparr>classList = set cs, attributes = map_of as, style = Map.empty, parentElement = p\<rparr>"

definition document_of :: "element list \<Rightarrow> document" where
  "document_of es =
     \<lparr>heap = (\<lambda>r. if r < length es then es ! r else mk_element [] [] None),
      nodes = [0..<length es]\<rparr>"

text \<open>
  Two accordion containers (elements 0 and 5). The first holds an open item (1, header 2)
  and a closed one (3, header 4); the second holds an open item (6, header 7).
\<close>

definition two_accordions :: document where
  "two_accordions = document_of
     [mk_element [''accordion''] [] None,
      mk_element [''accordion-item'', ''active''] [] (Some 0),
      mk_element [''accordion-header''] [(''aria-expanded'', ''true'')] (Some 1),
      mk_element [''accordion-item''] [] (Some 0),
      mk_element [''accordion-header''] [(''aria-expanded'', ''false'')] (Some 3),
      mk_element [''accordion''] [] None,
      mk_element [''accordion-item'', ''active''] [] (Some 5),
      mk_element [''accordion-header''] [(''aria-expanded'', ''true'')] (Some 6)]"

section \<open>The itinerary tabs (initItineraryTabs)\<close>

definition tab_buttons :: "document \<Rightarrow> ref list" where
  "tab_buttons d = querySelectorAll d ''tab-button''"

definition tab_panels :: "document \<Rightarrow> ref list" where
  "tab_panels d = querySelectorAll d ''tab-panel''"

text \<open>
  \<^verbatim>\<open>initItineraryTabs\<close> looks for the buttons and the panels. When either list is empty it
  writes a warning to the console and returns; nothing is thrown and nothing is wired.
  Otherwise every button gets a click and a keydown listener.
\<close>

definition initItineraryTabs :: "document \<Rightarrow> wiring outcome" where
  "initItineraryTabs d =
     (let tabButtons = tab_buttons d; tabPanels = tab_panels d in
      if length tabButtons = 0 \<or> length tabPanels = 0
      then Inr \<lparr>console = [''Tab elements not found''], listeners = []\<rparr>
      else Inr \<lparr>console = [],
                listeners = concat (map (\<lambda>button. [(button, ''click''), (button, ''keydown'')])
                                        tabButtons)\<rparr>)"





section \<open>The scroll animations (class ScrollAnimations)\<close>

text \<open>
  The object handed to the constructor may leave any key out. The threshold is a fraction of
  the element's area; the delays are whole, non-negative milliseconds. (A JavaScript number
  is a double: whole numbers below \<open>2^53\<close> are exact in it, and that is the range modelled.)
\<close>

record config_arg =
  arg_threshold :: "rat option"
  arg_rootMargin :: "string option"
  arg_animationDelay :: "nat option"
  arg_animationDuration :: "nat option"

record config =
  threshold :: rat
  rootMargin :: string
  animationDelay :: nat
  animationDuration :: nat

text \<open>
  \<^verbatim>\<open>v || dflt\<close> takes the default when the key is absent or its value is falsy (zero, the
  empty string); the spread \<^verbatim>\<open>...config\<close> that follows puts every key that is present back.
\<close>

definition or_number :: "'a::zero option \<Rightarrow> 'a \<Rightarrow> 'a" where
  "or_number v dflt = (case v of None \<Rightarrow> dflt | Some x \<Rightarrow> if x = 0 then dflt else x)"

definition or_string :: "string option \<Rightarrow> string \<Rightarrow> string" where
  "or_string v dflt = (case v of None \<Rightarrow> dflt | Some x \<Rightarrow> if x = [] then dflt else x)"

definition spread :: "'a option \<Rightarrow> 'a \<Rightarrow> 'a" where
  "spread v x = (case v of None \<Rightarrow> x | Some y \<Rightarrow> y)"

text \<open>An intersection observer: its options and the targets it observes.\<close>

record observer =
  observer_threshold :: rat
  observer_rootMargin :: string
  observed :: "ref list"

text \<open>
  The controller. \<open>animatedElements\<close> is the \<^verbatim>\<open>Set\<close> of the source, in insertion order;
  \<open>animationend_listeners\<close> counts the listeners \<^verbatim>\<open>init\<close> has put on the document.
\<close>

record scroll_animations =
  config :: config
  observer :: "observer option"
  animatedElements :: "ref list"
  prefersReducedMotion :: bool
  animationend_listeners :: nat

text \<open>The constructor; \<open>reduce\<close> is what \<^verbatim>\<open>matchMedia('(prefers-reduced-motion: reduce)')\<close> says.\<close>

definition new_ScrollAnimations :: "config_arg \<Rightarrow> bool \<Rightarrow> scroll_animations" where
  "new_ScrollAnimations arg reduce =
     \<lparr>config =
        \<lparr>threshold = spread (arg_threshold arg) (or_number (arg_threshold arg) (15 / 100)),
         rootMargin = spread (arg_rootMargin arg) (or_string (arg_rootMargin arg) ''0px''),
         animationDelay =
           spread (arg_animationDelay arg) (or_number (arg_animationDelay arg) 100),
         animationDuration =
           spread (arg_animationDuration arg) (or_number (arg_animationDuration arg) 1000)\<rparr>,
      observer = None,
      animatedElements = [],
      prefersReducedMotion = reduce,
      animationend_listeners = 0\<rparr>"

text \<open>
  \<^verbatim>\<open>querySelectorAll('.animate-fade-in-up, .animate-fade-in, [data-animate]')\<close>: the
  elements the controller tracks.
\<close>

definition animated_selector :: "document \<Rightarrow> ref list" where
  "animated_selector d =
     filter (\<lambda>r. classList_contains d r ''animate-fade-in-up''
                \<or> classList_contains d r ''animate-fade-in''
                \<or> getAttribute d r ''data-animate'' \<noteq> None) (nodes d)"

text \<open>\<^verbatim>\<open>element.closest('.c')\<close>: the element itself or its nearest ancestor of class \<open>c\<close>.\<close>

fun closest_from :: "(ref \<Rightarrow> element) \<Rightarrow> nat \<Rightarrow> string \<Rightarrow> ref \<Rightarrow> ref option" where
  "closest_from h 0 c r = (if c \<in> classList (h r) then Some r else None)"
| "closest_from h (Suc k) c r =
     (if c \<in> classList (h r) then Some r
      else case parentElement (h r) of
             None \<Rightarrow> None
           | Some p \<Rightarrow> closest_from h k c p)"

definition closest :: "document \<Rightarrow> ref \<Rightarrow> string \<Rightarrow> ref option" where
  "closest d r c = closest_from (heap d) (length (nodes d)) c r"

text \<open>
  \<^verbatim>\<open>observeElements\<close>: every tracked element outside the hero section is handed to the
  observer. Without an observer the first such element makes \<^verbatim>\<open>this.observer.observe\<close>
  throw. Observing a target twice changes nothing.
\<close>

fun observe_each :: "document \<Rightarrow> ref list \<Rightarrow> scroll_animations \<Rightarrow> scroll_animations outcome" where
  "observe_each d [] s = Inr s"
| "observe_each d (element # elements) s =
     (if closest d element ''hero-section'' \<noteq> None then observe_each d elements s
      else case observer s of
             None \<Rightarrow> Inl (TypeError, s)
           | Some ob \<Rightarrow>
               observe_each d elements
                 (s\<lparr>observer := Some (ob\<lparr>observed :=
                      (if element \<in> set (observed ob) then observed ob
                       else observed ob @ [element])\<rparr>)\<rparr>))"

definition observeElements :: "document \<Rightarrow> scroll_animations \<Rightarrow> scroll_animations outcome" where
  "observeElements d s = observe_each d (animated_selector d) s"

text \<open>\<^verbatim>\<open>triggerAnimation\<close>; an empty \<^verbatim>\<open>data-animate\<close> is falsy.\<close>

definition triggerAnimation :: "ref \<Rightarrow> document \<Rightarrow> document" where
  "triggerAnimation element d =
     (let d1 = (if classList_contains d element ''animate-fade-in-up''
                then classList_add element ''visible'' d else d)
      in case getAttribute d1 element ''data-animate'' of
           None \<Rightarrow> d1
         | Some animationType \<Rightarrow>
             if animationType = [] then d1
             else classList_add element ''visible''
                    (classList_add element (''animate-'' @ animationType) d1))"

text \<open>An entry of an intersection notification.\<close>

record entry =
  target :: ref
  isIntersecting :: bool

text \<open>\<^verbatim>\<open>handleIntersection\<close>, one entry and then the list of them.\<close>

definition handle_entry :: "entry \<Rightarrow> scroll_animations \<times> document \<Rightarrow> scroll_animations \<times> document" where
  "handle_entry en = (\<lambda>(s, d).
     if isIntersecting en \<and> target en \<notin> set (animatedElements s)
     then (s\<lparr>animatedElements := animatedElements s @ [target en]\<rparr>,
           triggerAnimation (target en) d)
     else (s, d))"

definition handleIntersection ::
  "entry list \<Rightarrow> scroll_animations \<times> document \<Rightarrow> scroll_animations \<times> document" where
  "handleIntersection entries sd = fold handle_entry entries sd"

text \<open>\<^verbatim>\<open>handleAnimationEnd\<close> for an event whose target is \<open>element\<close>.\<close>

definition handleAnimationEnd :: "ref \<Rightarrow> document \<Rightarrow> document" where
  "handleAnimationEnd element d =
     (let d1 = (if classList_contains d element ''animate-fade-in-up''
                then classList_add element ''animation-complete''
                       (classList_remove element ''animate-fade-in-up''
                          (setStyle element ''transform'' ''translateY(0)''
                             (setStyle element ''opacity'' ''1'' d)))
                else d);
          d2 = (if classList_contains d1 element ''animate-fade-in''
                then classList_add element ''animation-complete''
                       (classList_remove element ''animate-fade-in''
                          (setStyle element ''transform'' ''translateY(0)''
                             (setStyle element ''opacity'' ''1'' d1)))
                else d1)
      in case getAttribute d2 element ''data-animate'' of
           None \<Rightarrow> d2
         | Some animationType \<Rightarrow>
             if animationType = [] then d2
             else classList_add element ''animation-complete''
                    (classList_remove element (''animate-'' @ animationType) d2))"

text \<open>\<^verbatim>\<open>disableAnimations\<close>: every tracked element is made visible at once.\<close>

definition disableAnimations :: "document \<Rightarrow> document" where
  "disableAnimations d =
     fold (\<lambda>element d.
             classList_add element ''visible''
               (setStyle element ''transform'' ''none''
                  (setStyle element ''opacity'' ''1'' d)))
          (animated_selector d) d"

text \<open>\<^verbatim>\<open>init\<close>.\<close>

definition init ::
  "scroll_animations \<times> document \<Rightarrow> (scroll_animations \<times> document) outcome" where
  "init = (\<lambda>(s, d).
     if prefersReducedMotion s then Inr (s, disableAnimations d)
     else
       (let s1 = s\<lparr>observer := Some \<lparr>observer_threshold = threshold (config s),
                                      observer_rootMargin = rootMargin (config s),
                                      observed = []\<rparr>\<rparr>
        in case observeElements d s1 of
             Inl (e, s2) \<Rightarrow> Inl (e, (s2, d))
           | Inr s2 \<Rightarrow>
               Inr (s2\<lparr>animationend_listeners := animationend_listeners s2 + 1\<rparr>, d)))"

text \<open>
  The decimal digits of a number, as the template literal \<^verbatim>\<open>`${delay}ms`\<close> prints a whole
  number.
\<close>

definition digit_char :: "nat \<Rightarrow> char" where
  "digit_char n = ''0123456789'' ! n"

function show_nat :: "nat \<Rightarrow> string" where
  "show_nat n = (if n < 10 then [digit_char n] else show_nat (n div 10) @ [digit_char (n mod 10)])"
  by pat_completeness auto
termination
  by (relation "measure id") auto

declare show_nat.simps [simp del]

text \<open>\<^verbatim>\<open>applyStaggeredDelays(elements, baseDelay = 0)\<close>.\<close>

definition applyStaggeredDelays ::
  "scroll_animations \<Rightarrow> ref list \<Rightarrow> nat option \<Rightarrow> document \<Rightarrow> document" where
  "applyStaggeredDelays s elements baseDelay d =
     fold (\<lambda>(index, element).
             setStyle element ''animationDelay''
               (show_nat ((case baseDelay of None \<Rightarrow> 0 | Some b \<Rightarrow> b)
                          + index * animationDelay (config s)) @ ''ms''))
          (enumerate 0 elements) d"

text \<open>
  \<^verbatim>\<open>destroy\<close> disconnects the observer. Its \<^verbatim>\<open>removeEventListener\<close> is given a function
  that was never registered (\<^verbatim>\<open>init\<close> registered an arrow function of its own), so the
  listeners on the document stay.
\<close>

definition destroy :: "scroll_animations \<Rightarrow> scroll_animations" where
  "destroy s =
     (case observer s of
        None \<Rightarrow> s
      | Some ob \<Rightarrow> s\<lparr>observer := Some (ob\<lparr>observed := []\<rparr>)\<rparr>)"

text \<open>Every method of the controller, as a call on the controller and the document.\<close>

datatype sa_call =
    Init
  | ObserveElements
  | HandleIntersection "entry list"
  | TriggerAnimation ref
  | HandleAnimationEnd ref
  | DisableAnimations
  | ApplyStaggeredDelays "ref list" "nat option"
  | Destroy

fun call :: "sa_call \<Rightarrow> scroll_animations \<times> document \<Rightarrow> scroll_animations \<times> document" where
  "call Init (s, d) = after (init (s, d))"
| "call ObserveElements (s, d) = (after (observeElements d s), d)"
| "call (HandleIntersection entries) (s, d) = handleIntersection entries (s, d)"
| "call (TriggerAnimation element) (s, d) = (s, triggerAnimation element d)"
| "call (HandleAnimationEnd element) (s, d) = (s, handleAnimationEnd element d)"
| "call DisableAnimations (s, d) = (s, disableAnimations d)"
| "call (ApplyStaggeredDelays elements baseDelay) (s, d) =
     (s, applyStaggeredDelays s elements baseDelay d)"
| "call Destroy (s, d) = (destroy s, d)"

definition sa_calls ::
  "sa_call list \<Rightarrow> scroll_animations \<times> document \<Rightarrow> scroll_animations \<times> document" where
  "sa_calls cs sd = fold call cs sd"


definition observed_targets :: "scroll_animations \<Rightarrow> ref list" where
  "observed_targets s = (case observer s of None \<Rightarrow> [] | Some ob \<Rightarrow> observed ob)"

text \<open>
  Five service cards (1 to 5) in a section (0), one of them already shown, and a card with a
  \<^verbatim>\<open>data-animate\<close> attribute inside the hero section (6, 7).
\<close>

definition cards :: document where
  "cards = document_of
     [mk_element [''services-section''] [] None,
      mk_element [''service-card'', ''animate-fade-in-up''] [] (Some 0),
      mk_element [''service-card'', ''animate-fade-in-up''] [] (Some 0),
      mk_element [''service-card'', ''animate-fade-in''] [] (Some 0),
      mk_element [''service-card'', ''animate-fade-in-up'', ''visible''] [] (Some 0),
      mk_element [''service-card''] [(''data-animate'', ''zoom'')] (Some 0),
      mk_element [''hero-section''] [] None,
      mk_element [''hero-title''] [(''data-animate'', ''fade'')] (Some 6)]"

definition no_config :: config_arg where
  "no_config = \<lparr>arg_threshold = None, arg_rootMargin = None,
                arg_animationDelay = None, arg_animationDuration = None\<rparr>"

section \<open>The background audio (setupAutoplayAudio)\<close>

text \<open>
  The page holds one audio handle and one flag, both module-wide. What the browser decides
  is part of the state: whether \<^verbatim>\<open>new Audio\<close> succeeds and whether \<^verbatim>\<open>play()\<close> is allowed to
  start. \<open>play_calls\<close> counts the calls of \<^verbatim>\<open>play()\<close> on the handle.
\<close>

record audio =
  paused :: bool
  loop :: bool
  volume :: rat
  preload :: string

record page =
  doc :: document
  hidden :: bool
  backgroundAudio :: "audio option"
  audioInitialized :: bool
  play_calls :: nat
  audio_constructible :: bool
  play_allowed :: bool

definition initBackgroundAudio :: "page \<Rightarrow> page" where
  "initBackgroundAudio p =
     (if audioInitialized p then p
      else if audio_constructible p
      then p\<lparr>backgroundAudio :=
                Some \<lparr>paused = True, loop = True, volume = 3 / 10, preload = ''auto''\<rparr>,
              audioInitialized := True\<rparr>
      else p)"

definition playBackgroundAudio :: "page \<Rightarrow> page" where
  "playBackgroundAudio p =
     (let p1 = (if backgroundAudio p = None \<or> \<not> audioInitialized p
                then initBackgroundAudio p else p)
      in case backgroundAudio p1 of
           None \<Rightarrow> p1
         | Some a \<Rightarrow>
             p1\<lparr>backgroundAudio := Some (a\<lparr>paused := (if play_allowed p1 then False else paused a)\<rparr>),
                play_calls := play_calls p1 + 1\<rparr>)"

definition pauseBackgroundAudio :: "page \<Rightarrow> page" where
  "pauseBackgroundAudio p =
     (case backgroundAudio p of
        None \<Rightarrow> p
      | Some a \<Rightarrow> if \<not> paused a then p\<lparr>backgroundAudio := Some (a\<lparr>paused := True\<rparr>)\<rparr> else p)"

text \<open>
  The \<^verbatim>\<open>visibilitychange\<close> listener that \<^verbatim>\<open>setupAutoplayAudio\<close> registers. The repository
  holds two versions of the script. The one with the welcome popup looks the popup up
  before it resumes:
\<close>

definition visibilitychange_popup :: "page \<Rightarrow> page" where
  "visibilitychange_popup p =
     (if hidden p then pauseBackgroundAudio p
      else if audioInitialized p \<and> backgroundAudio p \<noteq> None
      then (case getElementById (doc p) ''popup-overlay'' of
              None \<Rightarrow> playBackgroundAudio p
            | Some popup \<Rightarrow>
                if getStyle (doc p) popup ''display'' = Some ''none''
                then playBackgroundAudio p else p)
      else p)"

text \<open>The one of \<^verbatim>\<open>js/main.js\<close>, which has no popup, does not:\<close>

definition visibilitychange_main :: "page \<Rightarrow> page" where
  "visibilitychange_main p =
     (if hidden p then pauseBackgroundAudio p
      else if audioInitialized p \<and> backgroundAudio p \<noteq> None
      then playBackgroundAudio p
      else p)"

text \<open>
  The audio is silent when there is no handle or the handle is paused; a listener has
  resumed it when it has called \<^verbatim>\<open>play()\<close>; an overlay is still displayed when the popup
  element is in the document and its inline display is not \<^verbatim>\<open>none\<close>.
\<close>

definition silent :: "page \<Rightarrow> bool" where
  "silent p = (case backgroundAudio p of None \<Rightarrow> True | Some a \<Rightarrow> paused a)"

definition resumed :: "page \<Rightarrow> page \<Rightarrow> bool" where
  "resumed p p' = (play_calls p < play_calls p')"

definition overlay_displayed :: "document \<Rightarrow> bool" where
  "overlay_displayed d =
     (case getElementById d ''popup-overlay'' of
        None \<Rightarrow> False
      | Some popup \<Rightarrow> getStyle d popup ''display'' \<noteq> Some ''none'')"

text \<open>A visible page whose welcome popup is still shown, with the audio ready and paused.\<close>

definition popup_shown :: page where
  "popup_shown =
     \<lparr>doc = document_of
              [(mk_element [] [(''id'', ''popup-overlay'')] None)
                 \<lparr>style := [''display'' \<mapsto> ''flex'']\<rparr>],
      hidden = False,
      backgroundAudio = Some \<lparr>paused = True, loop = True, volume = 3 / 10, preload = ''auto''\<rparr>,
      audioInitialized = True,
      play_calls = 0,
      audio_constructible = True,
      play_allowed = True\<rparr>"

section \<open>The contact form (class ContactForm)\<close>

text \<open>
  A string is the list of its code units, here the units below 256. White space is what
  \<^verbatim>\<open>trim()\<close> strips and what \<^verbatim>\<open>\s\<close> matches in that range: tab, line feed, vertical tab,
  form feed, carriage return, space and the no-break space.
\<close>

definition is_space :: "char \<Rightarrow> bool" where
  "is_space c = (c \<in> set [CHR 0x09, CHR 0x0A, CHR 0x0B, CHR 0x0C, CHR 0x0D, CHR 0x20, CHR 0xA0])"

definition trim :: "string \<Rightarrow> string" where
  "trim s = rev (dropWhile is_space (rev (dropWhile is_space s)))"

text \<open>
  Regular expressions, as far as the form needs them, matched by taking derivatives: a
  string matches when what is left of the expression after all its characters accepts the
  empty string. This is the whole-string match that \<^verbatim>\<open>^\<close> ... \<^verbatim>\<open>$\<close> asks of \<^verbatim>\<open>test\<close>.
\<close>

datatype char_class = Literal char | NotSpaceNorAt

fun in_class :: "char_class \<Rightarrow> char \<Rightarrow> bool" where
  "in_class (Literal a) c = (c = a)"
| "in_class NotSpaceNorAt c = (\<not> is_space c \<and> c \<noteq> CHR ''@'')"

datatype regex = Fail | Empty | Chr char_class | Seq regex regex | Alt regex regex | Star regex

fun nullable :: "regex \<Rightarrow> bool" where
  "nullable Fail = False"
| "nullable Empty = True"
| "nullable (Chr k) = False"
| "nullable (Seq r s) = (nullable r \<and> nullable s)"
| "nullable (Alt r s) = (nullable r \<or> nullable s)"
| "nullable (Star r) = True"

fun deriv :: "char \<Rightarrow> regex \<Rightarrow> regex" where
  "deriv c Fail = Fail"
| "deriv c Empty = Fail"
| "deriv c (Chr k) = (if in_class k c then Empty else Fail)"
| "deriv c (Seq r s) =
     (if nullable r then Alt (Seq (deriv c r) s) (deriv c s) else Seq (deriv c r) s)"
| "deriv c (Alt r s) = Alt (deriv c r) (deriv c s)"
| "deriv c (Star r) = Seq (deriv c r) (Star r)"

fun matches :: "regex \<Rightarrow> string \<Rightarrow> bool" where
  "matches r [] = nullable r"
| "matches r (c # cs) = matches (deriv c r) cs"

definition Plus :: "regex \<Rightarrow> regex" where
  "Plus r = Seq r (Star r)"

text \<open>\<^verbatim>\<open>/^[^\s@]+@[^\s@]+\.[^\s@]+$/\<close>\<close>

definition emailRegex :: regex where
  "emailRegex =
     Seq (Plus (Chr NotSpaceNorAt))
       (Seq (Chr (Literal CHR ''@''))
          (Seq (Plus (Chr NotSpaceNorAt))
             (Seq (Chr (Literal CHR ''.''))
                (Plus (Chr NotSpaceNorAt)))))"

definition validateEmail :: "string \<Rightarrow> bool" where
  "validateEmail email = matches emailRegex email"

text \<open>
  The form holds its three fields, each with the element that shows its error, the submit
  button and the status element; the constructor and the methods use all of them
  unguarded. \<open>default_value\<close> is what \<^verbatim>\<open>form.reset()\<close> puts back.
\<close>

record form_field =
  field_value :: string
  default_value :: string
  error_class :: bool
  aria_invalid :: bool
  error_text :: string

datatype field_name = Name | Email | Message

record contact_form =
  name_field :: form_field
  email_field :: form_field
  message_field :: form_field
  button_loading :: bool
  button_disabled :: bool
  status_text :: string
  status_className :: string
  status_role :: "string option"

fun get_field :: "field_name \<Rightarrow> contact_form \<Rightarrow> form_field" where
  "get_field Name f = name_field f"
| "get_field Email f = email_field f"
| "get_field Message f = message_field f"

fun set_field :: "field_name \<Rightarrow> form_field \<Rightarrow> contact_form \<Rightarrow> contact_form" where
  "set_field Name x f = f\<lparr>name_field := x\<rparr>"
| "set_field Email x f = f\<lparr>email_field := x\<rparr>"
| "set_field Message x f = f\<lparr>message_field := x\<rparr>"

definition showFieldError :: "field_name \<Rightarrow> string \<Rightarrow> contact_form \<Rightarrow> contact_form" where
  "showFieldError fieldName message f =
     set_field fieldName
       ((get_field fieldName f)\<lparr>error_class := True, aria_invalid := True, error_text := message\<rparr>) f"

definition clearFieldError :: "field_name \<Rightarrow> contact_form \<Rightarrow> contact_form" where
  "clearFieldError fieldName f =
     set_field fieldName
       ((get_field fieldName f)\<lparr>error_class := False, aria_invalid := False, error_text := []\<rparr>) f"

text \<open>\<^verbatim>\<open>validateField\<close>: the form it leaves and the value it returns.\<close>

definition validateField :: "field_name \<Rightarrow> contact_form \<Rightarrow> contact_form \<times> bool" where
  "validateField fieldName f =
     (let v = trim (field_value (get_field fieldName f)) in
      if v = [] then (showFieldError fieldName ''This field is required'' f, False)
      else if fieldName = Email \<and> \<not> validateEmail v
      then (showFieldError fieldName ''Please enter a valid email address'' f, False)
      else if fieldName = Message \<and> length v < 10
      then (showFieldError fieldName ''Message must be at least 10 characters'' f, False)
      else (clearFieldError fieldName f, True))"

text \<open>
  \<^verbatim>\<open>validateAllFields\<close> goes through the keys of \<^verbatim>\<open>this.fields\<close> in their order and
  validates every one of them, also after a failure.
\<close>

definition validateAllFields :: "contact_form \<Rightarrow> contact_form \<times> bool" where
  "validateAllFields f =
     fold (\<lambda>fieldName (f, isValid).
             let (f', ok) = validateField fieldName f
             in (f', if \<not> ok then False else isValid))
          [Name, Email, Message] (f, True)"

definition setLoadingState :: "bool \<Rightarrow> contact_form \<Rightarrow> contact_form" where
  "setLoadingState isLoading f =
     (if isLoading then f\<lparr>button_loading := True, button_disabled := True\<rparr>
      else f\<lparr>button_loading := False, button_disabled := False\<rparr>)"

definition showSuccess :: "string \<Rightarrow> contact_form \<Rightarrow> contact_form" where
  "showSuccess message f =
     f\<lparr>status_text := message, status_className := ''form-status success'',
       status_role := Some ''status''\<rparr>"

definition showError :: "string \<Rightarrow> contact_form \<Rightarrow> contact_form" where
  "showError message f =
     f\<lparr>status_text := message, status_className := ''form-status error'',
       status_role := Some ''alert''\<rparr>"

definition clearStatus :: "contact_form \<Rightarrow> contact_form" where
  "clearStatus f = f\<lparr>status_text := [], status_className := ''form-status''\<rparr>"

definition reset :: "contact_form \<Rightarrow> contact_form" where
  "reset f =
     fold clearFieldError [Name, Email, Message]
       (f\<lparr>name_field := (name_field f)\<lparr>field_value := default_value (name_field f)\<rparr>,
          email_field := (email_field f)\<lparr>field_value := default_value (email_field f)\<rparr>,
          message_field := (message_field f)\<lparr>field_value := default_value (message_field f)\<rparr>\<rparr>)"

record form_data =
  data_name :: string
  data_email :: string
  data_message :: string

text \<open>
  \<^verbatim>\<open>handleSubmit\<close> is asynchronous. It runs as far as its \<^verbatim>\<open>await\<close>: either it has returned
  by then, or it has called \<^verbatim>\<open>submitForm\<close> with the collected data and waits for it. It
  continues when the simulated request settles, with success or with an error.
\<close>

datatype submission = Returned contact_form | Submitted contact_form form_data

definition handleSubmit :: "contact_form \<Rightarrow> submission" where
  "handleSubmit f =
     (let (f1, valid) = validateAllFields f in
      if \<not> valid then Returned f1
      else
        (let f2 = clearStatus (setLoadingState True f1);
             formData = \<lparr>data_name = trim (field_value (name_field f2)),
                         data_email = trim (field_value (email_field f2)),
                         data_message = trim (field_value (message_field f2))\<rparr>
         in Submitted f2 formData))"

definition handleSubmit_settled :: "bool \<Rightarrow> contact_form \<Rightarrow> contact_form" where
  "handleSubmit_settled success f =
     setLoadingState False
       (if success
        then reset (showSuccess ''Thank you! Your message has been sent successfully.'' f)
        else showError ''Unable to send message. Please try again later.'' f)"

text \<open>Whether a field passes, each test on the trimmed value as \<^verbatim>\<open>validateField\<close> reads it.\<close>

definition passes :: "field_name \<Rightarrow> contact_form \<Rightarrow> bool" where
  "passes fieldName f =
     (let v = trim (field_value (get_field fieldName f)) in
      v \<noteq> [] \<and> (fieldName = Email \<longrightarrow> validateEmail v)
      \<and> (fieldName = Message \<longrightarrow> 10 \<le> length v))"

definition blank_field :: "string \<Rightarrow> form_field" where
  "blank_field v =
     \<lparr>field_value = v, default_value = [], error_class = False, aria_invalid = False,
      error_text = []\<rparr>"

definition filled_form :: "string \<Rightarrow> string \<Rightarrow> string \<Rightarrow> contact_form" where
  "filled_form n e m =
     \<lparr>name_field = blank_field n, email_field = blank_field e, message_field = blank_field m,
      button_loading = False, button_disabled = False,
      status_text = [], status_className = ''form-status'', status_role = None\<rparr>"

section \<open>Properties of the accordion\<close>

lemma same_frame_refl: "same_frame d d"
  by (simp add: same_frame_def)

lemma same_frame_trans: "same_frame a b \<Longrightarrow> same_frame b c \<Longrightarrow> same_frame a c"
  by (simp add: same_frame_def)

lemma same_frame_remove: "same_frame d (classList_remove r ''active'' d)"
  by (simp add: same_frame_def classList_remove_def update_element_def)

lemma same_frame_add: "same_frame d (classList_add r ''active'' d)"
  by (simp add: same_frame_def classList_add_def update_element_def)

lemma same_frame_setAttribute: "same_frame d (setAttribute r k v d)"
  by (simp add: same_frame_def setAttribute_def update_element_def)

lemma has_ancestor_parents:
  "(\<And>x. parentElement (h' x) = parentElement (h x)) \<Longrightarrow> has_ancestor h' k a r = has_ancestor h k a r"
  by (induction k arbitrary: r) (auto split: option.splits)

lemma same_frame_inside: "same_frame d d' \<Longrightarrow> inside d' a r = inside d a r"
  unfolding inside_def same_frame_def
  using has_ancestor_parents [of "heap d'" "heap d"] by simp

lemma same_frame_querySelectorAll:
  "same_frame d d' \<Longrightarrow> c \<noteq> ''active'' \<Longrightarrow> querySelectorAll d' c = querySelectorAll d c"
  by (simp add: querySelectorAll_def classList_contains_def same_frame_def)

lemma same_frame_querySelector_in:
  assumes "same_frame d d'" and "c \<noteq> ''active''"
  shows "querySelector_in d' a c = querySelector_in d a c"
proof -
  have "(\<lambda>r. inside d' a r \<and> classList_contains d' r c) = (\<lambda>r. inside d a r \<and> classList_contains d r c)"
    using assms same_frame_inside [OF assms(1)]
    by (auto simp: classList_contains_def same_frame_def)
  moreover have "nodes d' = nodes d" using assms by (simp add: same_frame_def)
  ultimately show ?thesis by (simp add: querySelector_in_def)
qed

lemma closes_same_frame: "closes d its d' \<Longrightarrow> same_frame d d'"
  by (auto simp: closes_def same_frame_def)

lemma close_items_closes:
  assumes "\<forall>i \<in> set its. querySelector_in d i ''accordion-header'' \<noteq> None"
  shows "\<exists>d'. close_items its d = Inr d' \<and> closes d its d'"
  using assms
proof (induction its arbitrary: d)
  case Nil
  then show ?case by (simp add: closes_def)
next
  case (Cons i its)
  let ?d1 = "classList_remove i ''active'' d"
  have f1: "same_frame d ?d1" by (rule same_frame_remove)
  obtain h where h: "querySelector_in d i ''accordion-header'' = Some h"
    using Cons.prems by auto
  have h1: "querySelector_in ?d1 i ''accordion-header'' = Some h"
    using same_frame_querySelector_in [OF f1] h by simp
  let ?d2 = "setAttribute h ''aria-expanded'' ''false'' ?d1"
  have f2: "same_frame d ?d2"
    using f1 same_frame_setAttribute same_frame_trans by blast
  have q2: "\<And>j. querySelector_in ?d2 j ''accordion-header'' = querySelector_in d j ''accordion-header''"
    using same_frame_querySelector_in [OF f2] by simp
  have "\<forall>j \<in> set its. querySelector_in ?d2 j ''accordion-header'' \<noteq> None"
    using Cons.prems q2 by simp
  from Cons.IH [OF this] obtain d' where d': "close_items its ?d2 = Inr d'" "closes ?d2 its d'"
    by blast
  have step: "close_items (i # its) d = Inr d'"
    using h1 d' by simp
  have "closes d (i # its) d'"
    using d'(2) h unfolding closes_def q2
    by (auto simp: setAttribute_def classList_remove_def update_element_def)
  with step show ?case by blast
qed

lemma same_frame_items: "same_frame d d' \<Longrightarrow> accordion_items d' = accordion_items d"
  by (simp add: accordion_items_def same_frame_querySelectorAll)

lemma same_frame_headers: "same_frame d d' \<Longrightarrow> accordion_headers d' = accordion_headers d"
  by (simp add: accordion_headers_def same_frame_querySelectorAll)

lemma same_frame_group_items: "same_frame d d' \<Longrightarrow> group_items d' g = group_items d g"
  by (simp add: group_items_def same_frame_items same_frame_inside)

lemma same_frame_item_ok:
  assumes "same_frame d d'"
  shows "item_ok d' i = item_ok d i"
proof -
  have p: "\<And>r. parentElement (heap d' r) = parentElement (heap d r)"
    using assms by (simp add: same_frame_def)
  show ?thesis
    unfolding item_ok_def same_frame_querySelector_in [OF assms, of "''accordion-header''", simplified]
    by (simp add: p split: option.splits)
qed

lemma same_frame_header_ok:
  assumes "same_frame d d'"
  shows "header_ok d' h = header_ok d h"
proof -
  have p: "\<And>r. parentElement (heap d' r) = parentElement (heap d r)"
    using assms by (simp add: same_frame_def)
  show ?thesis
    unfolding header_ok_def same_frame_querySelector_in [OF assms, of "''accordion-header''", simplified]
      same_frame_items [OF assms] p
    by simp
qed

lemma same_frame_wf:
  assumes "same_frame d d'"
  shows "accordion_wf d' = accordion_wf d"
  unfolding accordion_wf_def same_frame_items [OF assms] same_frame_headers [OF assms]
    same_frame_item_ok [OF assms] same_frame_header_ok [OF assms]
  by simp

lemma accordion_click_clicked:
  assumes wf: "accordion_wf d" and h: "h \<in> set (accordion_headers d)"
  shows "\<exists>p d'. clicked d h p d'"
proof -
  from wf h have hok: "header_ok d h" by (simp add: accordion_wf_def)
  then obtain p where p: "parentElement (heap d h) = Some p"
    and pin: "p \<in> set (accordion_items d)"
    and ph: "querySelector_in d p ''accordion-header'' = Some h"
    by (auto simp: header_ok_def split: option.splits)
  have "\<forall>i \<in> set (accordion_items d). querySelector_in d i ''accordion-header'' \<noteq> None"
    using wf by (auto simp: accordion_wf_def item_ok_def split: option.splits)
  from close_items_closes [OF this] obtain d1
    where d1: "close_items (accordion_items d) d = Inr d1" and cl: "closes d (accordion_items d) d1"
    by blast
  have f1: "same_frame d d1" using cl by (rule closes_same_frame)
  define d' where "d' = (if \<not> item_active d p
      then setAttribute h ''aria-expanded'' ''true'' (classList_add p ''active'' d1) else d1)"
  have click: "accordion_click h d = Inr d'"
    by (simp add: accordion_click_def p d1 d'_def item_active_def)
  have f: "same_frame d d'"
  proof (cases "item_active d p")
    case True
    then show ?thesis using f1 by (simp add: d'_def)
  next
    case False
    have "same_frame d1 (setAttribute h ''aria-expanded'' ''true'' (classList_add p ''active'' d1))"
      by (rule same_frame_trans [OF same_frame_add same_frame_setAttribute])
    then show ?thesis using False same_frame_trans [OF f1] by (simp add: d'_def)
  qed
  have q: "\<And>a. querySelector_in d' a ''accordion-header'' = querySelector_in d a ''accordion-header''"
    using same_frame_querySelector_in [OF f] by simp
  have each: "item_active d' i = (i = p \<and> \<not> item_active d p)
            \<and> (\<exists>hi. querySelector_in d' i ''accordion-header'' = Some hi
                  \<and> getAttribute d' hi ''aria-expanded''
                      = Some (if i = p \<and> \<not> item_active d p then ''true'' else ''false''))"
    if i: "i \<in> set (accordion_items d)" for i
  proof -
    from wf i have "item_ok d i" by (simp add: accordion_wf_def)
    then obtain hi where hi: "querySelector_in d i ''accordion-header'' = Some hi"
      and par: "parentElement (heap d hi) = Some i"
      by (auto simp: item_ok_def split: option.splits)
    have eq: "(hi = h) = (i = p)"
      using par p ph hi by auto
    have "classList (heap d1 i) = classList (heap d i) - {''active''}"
      using cl i by (simp add: closes_def)
    then have a1: "\<not> item_active d1 i"
      by (simp add: item_active_def classList_contains_def)
    have "\<exists>j \<in> set (accordion_items d). querySelector_in d j ''accordion-header'' = Some hi"
      using i hi by blast
    moreover have "attributes (heap d1 hi) =
              (if \<exists>j \<in> set (accordion_items d). querySelector_in d j ''accordion-header'' = Some hi
               then (attributes (heap d hi))(''aria-expanded'' \<mapsto> ''false'')
               else attributes (heap d hi))"
      using cl unfolding closes_def by blast
    ultimately have a2: "getAttribute d1 hi ''aria-expanded'' = Some ''false''"
      by (simp add: getAttribute_def)
    have act: "item_active d' i = (i = p \<and> \<not> item_active d p)"
    proof (cases "item_active d p")
      case True
      then show ?thesis using a1 by (simp add: d'_def)
    next
      case False
      then show ?thesis using a1
        by (auto simp: d'_def item_active_def classList_contains_def
          setAttribute_def classList_add_def update_element_def)
    qed
    have att: "getAttribute d' hi ''aria-expanded''
                 = Some (if i = p \<and> \<not> item_active d p then ''true'' else ''false'')"
    proof (cases "item_active d p")
      case True
      then show ?thesis using a2 by (simp add: d'_def)
    next
      case False
      then show ?thesis using a2 eq
        by (auto simp: d'_def getAttribute_def
          setAttribute_def classList_add_def update_element_def)
    qed
    have "querySelector_in d' i ''accordion-header'' = Some hi"
      using hi q by simp
    then show ?thesis using act att by blast
  qed
  have "clicked d h p d'"
    unfolding clicked_def
  proof (intro conjI ballI)
    show "parentElement (heap d h) = Some p" by (rule p)
    show "p \<in> set (accordion_items d)" by (rule pin)
    show "accordion_click h d = Inr d'" by (rule click)
    show "same_frame d d'" by (rule f)
  next
    fix i assume "i \<in> set (accordion_items d)"
    from each [OF this]
    show "item_active d' i = (i = p \<and> \<not> item_active d p)"
      and "\<exists>hi. querySelector_in d' i ''accordion-header'' = Some hi
                  \<and> getAttribute d' hi ''aria-expanded''
                      = Some (if i = p \<and> \<not> item_active d p then ''true'' else ''false'')"
      by blast+
  qed
  then show ?thesis by blast
qed

lemma clicked_isOpen:
  assumes c: "clicked d h p d'" and i: "i \<in> set (accordion_items d)"
  shows "isOpen d' i = (i = p \<and> \<not> item_active d p)"
proof -
  from c i have a: "item_active d' i = (i = p \<and> \<not> item_active d p)"
    unfolding clicked_def by blast
  from c i obtain hi where hi: "querySelector_in d' i ''accordion-header'' = Some hi"
    and at: "getAttribute d' hi ''aria-expanded''
               = Some (if i = p \<and> \<not> item_active d p then ''true'' else ''false'')"
    unfolding clicked_def by blast
  have "item_expanded d' i = (i = p \<and> \<not> item_active d p)"
    by (simp add: item_expanded_def hi at)
  with a show ?thesis by (simp add: isOpen_def)
qed

lemma at_most_one_open_subset:
  "at_most_one_open d ys \<Longrightarrow> set xs \<subseteq> set ys \<Longrightarrow> at_most_one_open d xs"
  unfolding at_most_one_open_def by blast

lemma group_items_subset: "set (group_items d g) \<subseteq> set (accordion_items d)"
  by (simp add: group_items_def)

lemma clicked_at_most_one:
  assumes "clicked d h p d'"
  shows "at_most_one_open d' (accordion_items d)"
  unfolding at_most_one_open_def using clicked_isOpen [OF assms] by simp

lemma accordion_clicks_frame:
  "accordion_wf d \<Longrightarrow> set hs \<subseteq> set (accordion_headers d) \<Longrightarrow> same_frame d (accordion_clicks hs d)"
proof (induction hs arbitrary: d)
  case Nil
  then show ?case by (simp add: same_frame_refl)
next
  case (Cons h hs)
  then obtain p d' where c: "clicked d h p d'"
    using accordion_click_clicked [of d h] by auto
  then have af: "after (accordion_click h d) = d'" and f: "same_frame d d'"
    by (simp_all add: clicked_def after_def)
  have "accordion_wf d'" using Cons.prems(1) same_frame_wf [OF f] by simp
  moreover have "set hs \<subseteq> set (accordion_headers d')"
    using Cons.prems(2) same_frame_headers [OF f] by simp
  ultimately have "same_frame d' (accordion_clicks hs d')" by (rule Cons.IH)
  with f af show ?case using same_frame_trans by simp
qed

lemma accordion_clicks_at_most_one:
  "accordion_wf d \<Longrightarrow> set hs \<subseteq> set (accordion_headers d) \<Longrightarrow>
   hs \<noteq> [] \<or> at_most_one_open d (accordion_items d) \<Longrightarrow>
   at_most_one_open (accordion_clicks hs d) (accordion_items d)"
proof (induction hs arbitrary: d)
  case Nil
  then show ?case by simp
next
  case (Cons h hs)
  then obtain p d' where c: "clicked d h p d'"
    using accordion_click_clicked [of d h] by auto
  then have af: "after (accordion_click h d) = d'" and f: "same_frame d d'"
    by (simp_all add: clicked_def after_def)
  have its: "accordion_items d' = accordion_items d" by (rule same_frame_items [OF f])
  have "accordion_wf d'" using Cons.prems(1) same_frame_wf [OF f] by simp
  moreover have "set hs \<subseteq> set (accordion_headers d')"
    using Cons.prems(2) same_frame_headers [OF f] by simp
  moreover have "hs \<noteq> [] \<or> at_most_one_open d' (accordion_items d')"
    using clicked_at_most_one [OF c] its by simp
  ultimately have "at_most_one_open (accordion_clicks hs d') (accordion_items d')"
    by (rule Cons.IH)
  then show ?case using af its by simp
qed

text \<open>
  C1. In markup as the accordion expects it, after any sequence of clicks on accordion
  headers at most one item of any accordion container \<open>g\<close> is open (carries \<^verbatim>\<open>active\<close> or
  has a header with \<^verbatim>\<open>aria-expanded="true"\<close>). One click is enough to establish this; for
  the empty sequence it is what the page started with.
\<close>

theorem accordion_group_at_most_one_open:
  assumes "accordion_wf d" and "set hs \<subseteq> set (accordion_headers d)"
    and "hs \<noteq> [] \<or> at_most_one_open d (group_items d g)"
  shows "at_most_one_open (accordion_clicks hs d) (group_items (accordion_clicks hs d) g)"
proof -
  have f: "same_frame d (accordion_clicks hs d)"
    using assms(1,2) by (rule accordion_clicks_frame)
  have g: "group_items (accordion_clicks hs d) g = group_items d g"
    by (rule same_frame_group_items [OF f])
  show ?thesis
  proof (cases hs)
    case Nil
    with assms(3) show ?thesis by simp
  next
    case (Cons h hs')
    then have "hs \<noteq> [] \<or> at_most_one_open d (accordion_items d)" by simp
    with assms(1,2) have "at_most_one_open (accordion_clicks hs d) (accordion_items d)"
      by (rule accordion_clicks_at_most_one)
    then show ?thesis
      unfolding g using group_items_subset at_most_one_open_subset by blast
  qed
qed

theorem accordion_group_at_most_one_open_witness:
  "accordion_wf two_accordions
   \<and> set [4, 2, 2, 7] \<subseteq> set (accordion_headers two_accordions)
   \<and> at_most_one_open (accordion_clicks [4, 2, 2, 7] two_accordions)
        (group_items (accordion_clicks [4, 2, 2, 7] two_accordions) 0)"
proof -
  have a: "accordion_wf two_accordions" by code_simp
  have b: "set [4, 2, 2, 7] \<subseteq> set (accordion_headers two_accordions)" by code_simp
  have c: "[4, 2, 2, 7::ref] \<noteq> []
           \<or> at_most_one_open two_accordions (group_items two_accordions 0)" by simp
  show ?thesis
    using a b accordion_group_at_most_one_open [OF a b c] by simp
qed

lemma close_items_all_closed:
  assumes wf: "accordion_wf d"
  shows "\<exists>d1. close_items (accordion_items d) d = Inr d1 \<and> same_frame d d1
           \<and> (\<forall>i \<in> set (accordion_items d). \<not> isOpen d1 i)"
proof -
  have "\<forall>i \<in> set (accordion_items d). querySelector_in d i ''accordion-header'' \<noteq> None"
    using wf by (auto simp: accordion_wf_def item_ok_def split: option.splits)
  from close_items_closes [OF this] obtain d1
    where d1: "close_items (accordion_items d) d = Inr d1" and cl: "closes d (accordion_items d) d1"
    by blast
  have f1: "same_frame d d1" using cl by (rule closes_same_frame)
  have "\<not> isOpen d1 i" if i: "i \<in> set (accordion_items d)" for i
  proof -
    from wf i have "item_ok d i" by (simp add: accordion_wf_def)
    then obtain hi where hi: "querySelector_in d i ''accordion-header'' = Some hi"
      by (auto simp: item_ok_def split: option.splits)
    have "classList (heap d1 i) = classList (heap d i) - {''active''}"
      using cl i by (simp add: closes_def)
    then have a1: "\<not> item_active d1 i"
      by (simp add: item_active_def classList_contains_def)
    have "\<exists>j \<in> set (accordion_items d). querySelector_in d j ''accordion-header'' = Some hi"
      using i hi by blast
    moreover have "attributes (heap d1 hi) =
              (if \<exists>j \<in> set (accordion_items d). querySelector_in d j ''accordion-header'' = Some hi
               then (attributes (heap d hi))(''aria-expanded'' \<mapsto> ''false'')
               else attributes (heap d hi))"
      using cl unfolding closes_def by blast
    ultimately have a2: "getAttribute d1 hi ''aria-expanded'' = Some ''false''"
      by (simp add: getAttribute_def)
    have "querySelector_in d1 i ''accordion-header'' = Some hi"
      using same_frame_querySelector_in [OF f1] hi by simp
    then have "\<not> item_expanded d1 i" using a2 by (simp add: item_expanded_def)
    with a1 show ?thesis by (simp add: isOpen_def)
  qed
  with d1 f1 show ?thesis by blast
qed

text \<open>
  C9. The closing loop of the click listener runs over every \<^verbatim>\<open>.accordion-item\<close> of the
  document, whatever container it is in: it leaves none of them open, and the listener then
  opens the clicked item only if it was not active. So after one or more clicks at most one
  item of the whole document is open, and two items of two containers \<open>g1\<close> and \<open>g2\<close> are
  never open together.
\<close>

theorem accordion_exclusive_document_wide:
  assumes "accordion_wf d" and "h \<in> set (accordion_headers d)"
    and "set hs \<subseteq> set (accordion_headers d)"
  shows "\<exists>p d1. parentElement (heap d h) = Some p
           \<and> close_items (accordion_items d) d = Inr d1
           \<and> (\<forall>i \<in> set (accordion_items d). \<not> isOpen d1 i)
           \<and> accordion_click h d =
               Inr (if item_active d p then d1
                    else setAttribute h ''aria-expanded'' ''true'' (classList_add p ''active'' d1))
           \<and> at_most_one_open (accordion_clicks (h # hs) d)
                (accordion_items (accordion_clicks (h # hs) d))
           \<and> (\<forall>i \<in> set (group_items (accordion_clicks (h # hs) d) g1).
               \<forall>j \<in> set (group_items (accordion_clicks (h # hs) d) g2).
                 isOpen (accordion_clicks (h # hs) d) i \<and> isOpen (accordion_clicks (h # hs) d) j
                 \<longrightarrow> i = j)"
proof -
  let ?d' = "accordion_clicks (h # hs) d"
  from assms(1,2) have "header_ok d h" by (simp add: accordion_wf_def)
  then obtain p where p: "parentElement (heap d h) = Some p"
    by (auto simp: header_ok_def split: option.splits)
  from close_items_all_closed [OF assms(1)] obtain d1
    where d1: "close_items (accordion_items d) d = Inr d1"
      and closed: "\<forall>i \<in> set (accordion_items d). \<not> isOpen d1 i"
    by blast
  have click: "accordion_click h d =
               Inr (if item_active d p then d1
                    else setAttribute h ''aria-expanded'' ''true'' (classList_add p ''active'' d1))"
    by (simp add: accordion_click_def p d1 item_active_def)
  have hs: "set (h # hs) \<subseteq> set (accordion_headers d)" using assms(2,3) by simp
  have f: "same_frame d ?d'" using assms(1) hs by (rule accordion_clicks_frame)
  have "h # hs \<noteq> [] \<or> at_most_one_open d (accordion_items d)" by simp
  with assms(1) hs have one: "at_most_one_open ?d' (accordion_items d)"
    by (rule accordion_clicks_at_most_one)
  have its: "accordion_items ?d' = accordion_items d" by (rule same_frame_items [OF f])
  have two: "\<forall>i \<in> set (group_items ?d' g1). \<forall>j \<in> set (group_items ?d' g2).
                 isOpen ?d' i \<and> isOpen ?d' j \<longrightarrow> i = j"
    using one group_items_subset [of ?d' g1] group_items_subset [of ?d' g2]
    unfolding its at_most_one_open_def by blast
  show ?thesis
    using p d1 closed click one two unfolding its by blast
qed

theorem accordion_exclusive_document_wide_witness:
  "accordion_wf two_accordions
   \<and> 4 \<in> set (accordion_headers two_accordions)
   \<and> group_items two_accordions 0 = [1, 3]
   \<and> group_items two_accordions 5 = [6]
   \<and> isOpen two_accordions 1 \<and> isOpen two_accordions 6
   \<and> at_most_one_open (accordion_clicks [4] two_accordions)
        (accordion_items (accordion_clicks [4] two_accordions))"
proof -
  have a: "accordion_wf two_accordions" by code_simp
  have b: "4 \<in> set (accordion_headers two_accordions)" by code_simp
  have c: "set [] \<subseteq> set (accordion_headers two_accordions)" by simp
  have g: "group_items two_accordions 0 = [1, 3]" "group_items two_accordions 5 = [6]"
    by code_simp+
  have o: "isOpen two_accordions 1" "isOpen two_accordions 6"
    by code_simp+
  from accordion_exclusive_document_wide [OF a b c, of 0 5]
  have "at_most_one_open (accordion_clicks [4] two_accordions)
        (accordion_items (accordion_clicks [4] two_accordions))"
    by blast
  with a b g o show ?thesis by simp
qed

section \<open>Properties of the itinerary tabs\<close>













text \<open>
  C6, as the claim states it, fails: on a document with no tab at all the init function
  returns normally, with a warning on the console.
\<close>

theorem initItineraryTabs_empty_returns:
  "initItineraryTabs (document_of []) =
     Inr \<lparr>console = [''Tab elements not found''], listeners = []\<rparr>"
  by code_simp

text \<open>
  C6, amended. An empty registration does not fail. With no tab button or no tab panel,
  \<^verbatim>\<open>initItineraryTabs\<close> writes a warning to the console and returns before it wires any
  listener; with no accordion header, \<^verbatim>\<open>initAccordion\<close> wires nothing and reports nothing.
\<close>

theorem empty_registration_is_skipped:
  "(tab_buttons d = [] \<or> tab_panels d = [] \<longrightarrow>
      initItineraryTabs d = Inr \<lparr>console = [''Tab elements not found''], listeners = []\<rparr>)
   \<and> (accordion_headers d = [] \<longrightarrow>
      initAccordion d = Inr \<lparr>console = [], listeners = []\<rparr>)"
  by (auto simp: initItineraryTabs_def initAccordion_def Let_def)

theorem empty_registration_is_skipped_witness:
  "tab_panels (document_of [mk_element [''tab-button''] [] None]) = []
   \<and> accordion_headers (document_of [mk_element [''tab-button''] [] None]) = []
   \<and> initItineraryTabs (document_of [mk_element [''tab-button''] [] None]) =
       Inr \<lparr>console = [''Tab elements not found''], listeners = []\<rparr>
   \<and> initAccordion (document_of [mk_element [''tab-button''] [] None]) =
       Inr \<lparr>console = [], listeners = []\<rparr>"
proof -
  have a: "tab_panels (document_of [mk_element [''tab-button''] [] None]) = []" by code_simp
  have b: "accordion_headers (document_of [mk_element [''tab-button''] [] None]) = []"
    by code_simp
  show ?thesis
    using a b empty_registration_is_skipped [of "document_of [mk_element [''tab-button''] [] None]"]
    by simp
qed

section \<open>Properties of the scroll animations\<close>


lemma observe_each_no_observer:
  "observer s = None \<Longrightarrow> after (observe_each d es s) = s"
  by (induction es) (simp_all add: after_def)






















lemma disable_step_keeps:
  assumes "classList_contains d e ''visible'' \<and> getStyle d e ''opacity'' = Some ''1''"
  shows "classList_contains
           (classList_add x ''visible'' (setStyle x ''transform'' ''none'' (setStyle x ''opacity'' ''1'' d)))
           e ''visible''
         \<and> getStyle
           (classList_add x ''visible'' (setStyle x ''transform'' ''none'' (setStyle x ''opacity'' ''1'' d)))
           e ''opacity'' = Some ''1''"
  using assms
  by (auto simp: classList_contains_def getStyle_def classList_add_def setStyle_def update_element_def)

lemma disable_step_sets:
  "classList_contains
     (classList_add x ''visible'' (setStyle x ''transform'' ''none'' (setStyle x ''opacity'' ''1'' d)))
     x ''visible''
   \<and> getStyle
     (classList_add x ''visible'' (setStyle x ''transform'' ''none'' (setStyle x ''opacity'' ''1'' d)))
     x ''opacity'' = Some ''1''"
  by (simp add: classList_contains_def getStyle_def classList_add_def setStyle_def update_element_def)

lemma disable_fold_keeps:
  "classList_contains d e ''visible'' \<and> getStyle d e ''opacity'' = Some ''1'' \<Longrightarrow>
   classList_contains
     (fold (\<lambda>element d. classList_add element ''visible''
               (setStyle element ''transform'' ''none'' (setStyle element ''opacity'' ''1'' d))) xs d)
     e ''visible''
   \<and> getStyle
     (fold (\<lambda>element d. classList_add element ''visible''
               (setStyle element ''transform'' ''none'' (setStyle element ''opacity'' ''1'' d))) xs d)
     e ''opacity'' = Some ''1''"
proof (induction xs arbitrary: d)
  case Nil
  then show ?case by simp
next
  case (Cons x xs)
  show ?case
    using Cons.IH [OF disable_step_keeps [OF Cons.prems, of x]] by simp
qed

lemma disable_fold_sets:
  "e \<in> set xs \<Longrightarrow>
   classList_contains
     (fold (\<lambda>element d. classList_add element ''visible''
               (setStyle element ''transform'' ''none'' (setStyle element ''opacity'' ''1'' d))) xs d)
     e ''visible''
   \<and> getStyle
     (fold (\<lambda>element d. classList_add element ''visible''
               (setStyle element ''transform'' ''none'' (setStyle element ''opacity'' ''1'' d))) xs d)
     e ''opacity'' = Some ''1''"
proof (induction xs arbitrary: d)
  case Nil
  then show ?case by simp
next
  case (Cons x xs)
  show ?case
  proof (cases "e = x")
    case True
    then show ?thesis
      using disable_fold_keeps [OF disable_step_sets [of x d], of xs] by simp
  next
    case False
    with Cons.prems have "e \<in> set xs" by simp
    from Cons.IH [OF this] show ?thesis by simp
  qed
qed

lemma call_no_observer:
  assumes "prefersReducedMotion (fst sd)" and "observer (fst sd) = None"
  shows "prefersReducedMotion (fst (call c sd)) \<and> observer (fst (call c sd)) = None"
proof (cases sd)
  case (Pair s d)
  with assms have a: "prefersReducedMotion s" "observer s = None" by simp_all
  show ?thesis
  proof (cases c)
    case Init
    with Pair a show ?thesis by (simp add: init_def after_def)
  next
    case ObserveElements
    with Pair a show ?thesis
      using observe_each_no_observer [of s d "animated_selector d"]
      by (simp add: observeElements_def)
  next
    case (HandleIntersection ens)
    have "prefersReducedMotion (fst (fold handle_entry ens x)) = prefersReducedMotion (fst x)
          \<and> observer (fst (fold handle_entry ens x)) = observer (fst x)" for x
      by (induction ens arbitrary: x) (auto simp: handle_entry_def split: prod.splits)
    with Pair a HandleIntersection show ?thesis
      by (simp add: handleIntersection_def)
  next
    case Destroy
    with Pair a show ?thesis by (simp add: destroy_def)
  qed (use Pair a in simp_all)
qed

lemma sa_calls_no_observer:
  "prefersReducedMotion (fst sd) \<Longrightarrow> observer (fst sd) = None \<Longrightarrow>
   prefersReducedMotion (fst (sa_calls cs sd)) \<and> observer (fst (sa_calls cs sd)) = None"
  unfolding sa_calls_def
proof (induction cs arbitrary: sd)
  case Nil
  then show ?case by simp
next
  case (Cons c cs)
  from call_no_observer [OF Cons.prems, of c] show ?case
    using Cons.IH [of "call c sd"] by simp
qed

text \<open>
  C4. A controller constructed while the platform asks for reduced motion: \<^verbatim>\<open>init\<close> returns
  with every tracked element carrying \<^verbatim>\<open>visible\<close> and opacity 1, and with no observer.
  Nothing the controller does afterwards creates one, so there is never a target for which
  a notification could be delivered.
\<close>

theorem reduced_motion_reveals_at_once:
  "\<exists>d'. init (new_ScrollAnimations arg True, d) = Inr (new_ScrollAnimations arg True, d')
      \<and> observer (new_ScrollAnimations arg True) = None
      \<and> (\<forall>e \<in> set (animated_selector d).
            classList_contains d' e ''visible'' \<and> getStyle d' e ''opacity'' = Some ''1'')
      \<and> observer (fst (sa_calls cs (new_ScrollAnimations arg True, d'))) = None
      \<and> observed_targets (fst (sa_calls cs (new_ScrollAnimations arg True, d'))) = []"
proof -
  let ?s = "new_ScrollAnimations arg True"
  have r: "prefersReducedMotion ?s" and o: "observer ?s = None"
    by (simp_all add: new_ScrollAnimations_def)
  have i: "init (?s, d) = Inr (?s, disableAnimations d)"
    using r by (simp add: init_def)
  have v: "\<forall>e \<in> set (animated_selector d).
            classList_contains (disableAnimations d) e ''visible''
            \<and> getStyle (disableAnimations d) e ''opacity'' = Some ''1''"
    unfolding disableAnimations_def using disable_fold_sets by blast
  have n: "observer (fst (sa_calls cs (?s, disableAnimations d))) = None"
    using sa_calls_no_observer [of "(?s, disableAnimations d)" cs] r o by simp
  then have "observed_targets (fst (sa_calls cs (?s, disableAnimations d))) = []"
    by (simp add: observed_targets_def)
  with i o v n show ?thesis by blast
qed

theorem reduced_motion_reveals_at_once_witness:
  "animated_selector cards = [1, 2, 3, 4, 5, 7]
   \<and> (\<exists>d'. init (new_ScrollAnimations no_config True, cards)
              = Inr (new_ScrollAnimations no_config True, d')
         \<and> classList_contains d' 3 ''visible'' \<and> getStyle d' 3 ''opacity'' = Some ''1''
         \<and> observed_targets (fst (sa_calls [Init, ObserveElements]
                                    (new_ScrollAnimations no_config True, d'))) = [])"
proof -
  have a: "animated_selector cards = [1, 2, 3, 4, 5, 7]" by code_simp
  then have m: "3 \<in> set (animated_selector cards)" by simp
  from reduced_motion_reveals_at_once [of no_config cards "[Init, ObserveElements]"]
  obtain d' where "init (new_ScrollAnimations no_config True, cards)
              = Inr (new_ScrollAnimations no_config True, d')"
    and "\<forall>e \<in> set (animated_selector cards).
            classList_contains d' e ''visible'' \<and> getStyle d' e ''opacity'' = Some ''1''"
    and "observed_targets (fst (sa_calls [Init, ObserveElements]
                                    (new_ScrollAnimations no_config True, d'))) = []"
    by blast
  with a m show ?thesis by blast
qed








section \<open>Properties of the background audio\<close>

lemma pause_silent: "silent (pauseBackgroundAudio p)"
  by (simp add: silent_def pauseBackgroundAudio_def split: option.splits)

lemma pause_play_calls: "play_calls (pauseBackgroundAudio p) = play_calls p"
  by (simp add: pauseBackgroundAudio_def split: option.splits)

lemma play_ready:
  "audioInitialized p \<Longrightarrow> backgroundAudio p \<noteq> None \<Longrightarrow>
   play_calls (playBackgroundAudio p) = play_calls p + 1"
  by (auto simp: playBackgroundAudio_def Let_def split: option.splits)

text \<open>
  C8, as the claim states it, fails for \<^verbatim>\<open>js/main.js\<close>: on a visible page whose popup is
  still displayed its listener calls \<^verbatim>\<open>play()\<close>.
\<close>

theorem visibilitychange_main_ignores_overlay:
  "\<not> hidden popup_shown \<and> overlay_displayed (doc popup_shown)
   \<and> resumed popup_shown (visibilitychange_main popup_shown)"
  by code_simp

text \<open>
  C8, amended. In both versions a change to hidden leaves the audio silent, and a change to
  visible resumes only if the audio had been initialized. The version with the welcome
  popup resumes only if, besides, no popup is still displayed. \<^verbatim>\<open>js/main.js\<close> has no popup
  and looks at no overlay: it resumes whenever the audio had been initialized.
\<close>

theorem visibilitychange_pauses_and_resumes:
  "(hidden p \<longrightarrow> silent (visibilitychange_popup p) \<and> silent (visibilitychange_main p))
   \<and> (\<not> hidden p \<and> resumed p (visibilitychange_popup p) \<longrightarrow>
        audioInitialized p \<and> backgroundAudio p \<noteq> None \<and> \<not> overlay_displayed (doc p))
   \<and> (\<not> hidden p \<longrightarrow>
        resumed p (visibilitychange_main p) = (audioInitialized p \<and> backgroundAudio p \<noteq> None))"
proof (intro conjI impI)
  assume "hidden p"
  then show "silent (visibilitychange_popup p)" "silent (visibilitychange_main p)"
    by (simp_all add: visibilitychange_popup_def visibilitychange_main_def pause_silent)
next
  assume a: "\<not> hidden p \<and> resumed p (visibilitychange_popup p)"
  then have r: "play_calls p < play_calls (visibilitychange_popup p)" and v: "\<not> hidden p"
    by (simp_all add: resumed_def)
  show "audioInitialized p" "backgroundAudio p \<noteq> None" "\<not> overlay_displayed (doc p)"
    using r v
    by (auto simp: visibilitychange_popup_def overlay_displayed_def
        split: if_splits option.splits)
next
  assume v: "\<not> hidden p"
  show "resumed p (visibilitychange_main p) = (audioInitialized p \<and> backgroundAudio p \<noteq> None)"
  proof (cases "audioInitialized p \<and> backgroundAudio p \<noteq> None")
    case True
    then show ?thesis using v play_ready [of p]
      by (simp add: visibilitychange_main_def resumed_def)
  next
    case False
    then show ?thesis using v
      by (auto simp: visibilitychange_main_def resumed_def)
  qed
qed

theorem visibilitychange_pauses_and_resumes_witness:
  "hidden (popup_shown\<lparr>hidden := True\<rparr>)
   \<and> silent (visibilitychange_popup (popup_shown\<lparr>hidden := True\<rparr>))
   \<and> \<not> hidden (popup_shown\<lparr>doc := document_of []\<rparr>)
   \<and> resumed (popup_shown\<lparr>doc := document_of []\<rparr>)
        (visibilitychange_popup (popup_shown\<lparr>doc := document_of []\<rparr>))
   \<and> \<not> overlay_displayed (doc (popup_shown\<lparr>doc := document_of []\<rparr>))
   \<and> \<not> hidden popup_shown
   \<and> resumed popup_shown (visibilitychange_main popup_shown)"
proof -
  have h: "hidden (popup_shown\<lparr>hidden := True\<rparr>)" by simp
  have v: "\<not> hidden (popup_shown\<lparr>doc := document_of []\<rparr>)" "\<not> hidden popup_shown"
    by code_simp+
  have r: "resumed (popup_shown\<lparr>doc := document_of []\<rparr>)
        (visibilitychange_popup (popup_shown\<lparr>doc := document_of []\<rparr>))"
    by code_simp
  have i: "audioInitialized popup_shown \<and> backgroundAudio popup_shown \<noteq> None"
    by code_simp
  show ?thesis
    using h v r i
      visibilitychange_pauses_and_resumes [of "popup_shown\<lparr>hidden := True\<rparr>"]
      visibilitychange_pauses_and_resumes [of "popup_shown\<lparr>doc := document_of []\<rparr>"]
      visibilitychange_pauses_and_resumes [of popup_shown]
    by blast
qed

section \<open>Properties of the contact form\<close>

lemma validateField_returns: "snd (validateField n f) = passes n f"
  by (auto simp: validateField_def passes_def Let_def)

lemma get_field_set_field:
  "get_field m (set_field n x f) = (if m = n then x else get_field m f)"
  by (cases n; cases m) simp_all

lemma set_field_frame:
  "button_loading (set_field n x f) = button_loading f"
  "button_disabled (set_field n x f) = button_disabled f"
  "status_text (set_field n x f) = status_text f"
  "status_className (set_field n x f) = status_className f"
  "status_role (set_field n x f) = status_role f"
  by (cases n; simp)+

lemma showFieldError_values:
  "field_value (get_field m (showFieldError n msg f)) = field_value (get_field m f)"
  by (simp add: showFieldError_def get_field_set_field)

lemma clearFieldError_values:
  "field_value (get_field m (clearFieldError n f)) = field_value (get_field m f)"
  by (simp add: clearFieldError_def get_field_set_field)

lemma showFieldError_frame:
  "button_loading (showFieldError n msg f) = button_loading f"
  "button_disabled (showFieldError n msg f) = button_disabled f"
  "status_text (showFieldError n msg f) = status_text f"
  "status_className (showFieldError n msg f) = status_className f"
  "status_role (showFieldError n msg f) = status_role f"
  by (simp_all add: showFieldError_def set_field_frame)

lemma clearFieldError_frame:
  "button_loading (clearFieldError n f) = button_loading f"
  "button_disabled (clearFieldError n f) = button_disabled f"
  "status_text (clearFieldError n f) = status_text f"
  "status_className (clearFieldError n f) = status_className f"
  "status_role (clearFieldError n f) = status_role f"
  by (simp_all add: clearFieldError_def set_field_frame)

lemma validateField_values:
  "field_value (get_field m (fst (validateField n f))) = field_value (get_field m f)"
  unfolding validateField_def Let_def
  by (simp add: showFieldError_values clearFieldError_values)

lemma validateField_frame:
  "button_loading (fst (validateField n f)) = button_loading f"
  "button_disabled (fst (validateField n f)) = button_disabled f"
  "status_text (fst (validateField n f)) = status_text f"
  "status_className (fst (validateField n f)) = status_className f"
  "status_role (fst (validateField n f)) = status_role f"
  unfolding validateField_def Let_def
  by (simp_all add: showFieldError_frame clearFieldError_frame)

lemma passes_validateField: "passes m (fst (validateField n f)) = passes m f"
  by (simp add: passes_def validateField_values)

lemma validateAllFields_eq:
  "validateAllFields f =
     (fst (validateField Message (fst (validateField Email (fst (validateField Name f))))),
      passes Name f \<and> passes Email f \<and> passes Message f)"
proof -
  obtain f1 ok1 where v1: "validateField Name f = (f1, ok1)" by (cases "validateField Name f")
  obtain f2 ok2 where v2: "validateField Email f1 = (f2, ok2)" by (cases "validateField Email f1")
  obtain f3 ok3 where v3: "validateField Message f2 = (f3, ok3)" by (cases "validateField Message f2")
  have o1: "ok1 = passes Name f" using validateField_returns [of Name f] v1 by simp
  have "ok2 = passes Email f1" using validateField_returns [of Email f1] v2 by simp
  then have o2: "ok2 = passes Email f" using passes_validateField [of Email Name f] v1 by simp
  have "ok3 = passes Message f2" using validateField_returns [of Message f2] v3 by simp
  then have "ok3 = passes Message f1" using passes_validateField [of Message Email f1] v2 by simp
  then have o3: "ok3 = passes Message f" using passes_validateField [of Message Name f] v1 by simp
  show ?thesis
    using o1 o2 o3 by (auto simp: validateAllFields_def v1 v2 v3)
qed

lemma validateAllFields_frame:
  "button_loading (fst (validateAllFields f)) = button_loading f"
  "button_disabled (fst (validateAllFields f)) = button_disabled f"
  "status_text (fst (validateAllFields f)) = status_text f"
  "status_className (fst (validateAllFields f)) = status_className f"
  "status_role (fst (validateAllFields f)) = status_role f"
  by (simp_all add: validateAllFields_eq validateField_frame)

text \<open>
  C10. When a field is empty, the email does not match the expression or the message has
  fewer than 10 characters (each read after trimming, as \<^verbatim>\<open>validateField\<close> does),
  \<^verbatim>\<open>handleSubmit\<close> returns without calling \<^verbatim>\<open>submitForm\<close>, and leaves the submit button and
  the status element as they were. It calls \<^verbatim>\<open>submitForm\<close> only when all three fields pass,
  and only then is the button loading and disabled.
\<close>

theorem handleSubmit_submits_only_valid_forms:
  "(trim (field_value (name_field f)) = []
      \<or> trim (field_value (email_field f)) = []
      \<or> trim (field_value (message_field f)) = []
      \<or> \<not> validateEmail (trim (field_value (email_field f)))
      \<or> length (trim (field_value (message_field f))) < 10
    \<longrightarrow> (\<exists>f'. handleSubmit f = Returned f'
          \<and> button_loading f' = button_loading f
          \<and> button_disabled f' = button_disabled f
          \<and> status_text f' = status_text f
          \<and> status_className f' = status_className f
          \<and> status_role f' = status_role f))
   \<and> (\<forall>f' formData. handleSubmit f = Submitted f' formData \<longrightarrow>
          passes Name f \<and> passes Email f \<and> passes Message f
          \<and> button_loading f' \<and> button_disabled f')"
proof (intro conjI impI allI)
  assume a: "trim (field_value (name_field f)) = []
      \<or> trim (field_value (email_field f)) = []
      \<or> trim (field_value (message_field f)) = []
      \<or> \<not> validateEmail (trim (field_value (email_field f)))
      \<or> length (trim (field_value (message_field f))) < 10"
  then have n: "\<not> (passes Name f \<and> passes Email f \<and> passes Message f)"
    by (auto simp: passes_def Let_def)
  obtain f1 valid where v: "validateAllFields f = (f1, valid)" by (cases "validateAllFields f")
  with n have "\<not> valid" by (auto simp: validateAllFields_eq)
  with v have r: "handleSubmit f = Returned f1" by (simp add: handleSubmit_def)
  have "f1 = fst (validateAllFields f)" using v by simp
  then have "button_loading f1 = button_loading f" "button_disabled f1 = button_disabled f"
    "status_text f1 = status_text f" "status_className f1 = status_className f"
    "status_role f1 = status_role f"
    by (simp_all add: validateAllFields_frame)
  with r show "\<exists>f'. handleSubmit f = Returned f'
          \<and> button_loading f' = button_loading f
          \<and> button_disabled f' = button_disabled f
          \<and> status_text f' = status_text f
          \<and> status_className f' = status_className f
          \<and> status_role f' = status_role f"
    by blast
next
  fix f' formData
  assume s: "handleSubmit f = Submitted f' formData"
  obtain f1 valid where v: "validateAllFields f = (f1, valid)" by (cases "validateAllFields f")
  with s have ok: "valid" and f': "f' = clearStatus (setLoadingState True f1)"
    by (auto simp: handleSubmit_def Let_def split: if_splits)
  from ok v have "passes Name f \<and> passes Email f \<and> passes Message f"
    by (simp add: validateAllFields_eq)
  moreover from f' have "button_loading f' \<and> button_disabled f'"
    by (simp add: clearStatus_def setLoadingState_def)
  ultimately show "passes Name f" "passes Email f" "passes Message f"
    "button_loading f'" "button_disabled f'"
    by blast+
qed

theorem handleSubmit_submits_only_valid_forms_witness:
  "\<not> validateEmail (trim (field_value (email_field
        (filled_form ''Ann'' ''ann@example'' ''See you at the wedding''))))
   \<and> (\<exists>f'. handleSubmit (filled_form ''Ann'' ''ann@example'' ''See you at the wedding'')
               = Returned f'
         \<and> \<not> button_loading f' \<and> \<not> button_disabled f' \<and> status_text f' = [])
   \<and> (\<exists>f' formData. handleSubmit
                         (filled_form ''Ann'' '' ann@example.org '' ''See you at the wedding'')
                       = Submitted f' formData
         \<and> passes Email (filled_form ''Ann'' '' ann@example.org '' ''See you at the wedding'')
         \<and> button_loading f')"
proof -
  let ?bad = "filled_form ''Ann'' ''ann@example'' ''See you at the wedding''"
  let ?good = "filled_form ''Ann'' '' ann@example.org '' ''See you at the wedding''"
  have e: "\<not> validateEmail (trim (field_value (email_field ?bad)))" by code_simp
  have b: "\<not> button_loading ?bad" "\<not> button_disabled ?bad" "status_text ?bad = []"
    by (simp_all add: filled_form_def)
  from handleSubmit_submits_only_valid_forms [of ?bad] e
  obtain f' where "handleSubmit ?bad = Returned f'"
    "button_loading f' = button_loading ?bad" "button_disabled f' = button_disabled ?bad"
    "status_text f' = status_text ?bad"
    by blast
  with b have bad: "\<exists>f'. handleSubmit ?bad = Returned f'
         \<and> \<not> button_loading f' \<and> \<not> button_disabled f' \<and> status_text f' = []"
    by auto
  have "case handleSubmit ?good of Returned x \<Rightarrow> False | Submitted x y \<Rightarrow> True"
    by code_simp
  then obtain g' formData where g: "handleSubmit ?good = Submitted g' formData"
    by (cases "handleSubmit ?good") simp_all
  with handleSubmit_submits_only_valid_forms [of ?good]
  have "passes Email ?good \<and> button_loading g'" by blast
  with g have good: "\<exists>f' formData. handleSubmit ?good = Submitted f' formData
         \<and> passes Email ?good \<and> button_loading f'"
    by blast
  from e bad good show ?thesis by blast
qed

end
